theory Spec2Isabelle
  imports Main
begin

section \<open>The LangSmith REST tracing notebook\<close>

text \<open>
  The notebook \<^verbatim>\<open>langsmith.ipynb\<close> logs runs to a remote service with plain HTTP calls:
  a POST creates a run, a PATCH ends it. Its only code with logic of its own is the class
  \<^verbatim>\<open>RunLogger\<close> (methods \<^verbatim>\<open>post_run\<close>, \<^verbatim>\<open>patch_run\<close>) and the traced function
  \<^verbatim>\<open>fibonacci\<close>. Everything the code does beyond computing a value is an effect: drawing a
  UUID, reading the clock, handing a request to the \<^verbatim>\<open>requests\<close> library. The effects are
  made explicit below as an environment of oracles and a world that is passed along.
\<close>

subsection \<open>JSON payloads and requests\<close>

text \<open>
  A Python dict literal is an association list: the order and the set of keys are what the
  code writes. \<^verbatim>\<open>None\<close> is serialised by \<^verbatim>\<open>requests\<close> as JSON null, so a key whose
  value is \<^verbatim>\<open>None\<close> is present in the payload with value \<open>JNull\<close>.
\<close>

datatype json =
    JNull
  | JInt int
  | JStr string
  | JArr "json list"
  | JObj "(string \<times> json) list"

type_synonym dict = "(string \<times> json) list"

datatype verb = POST | PATCH

record request =
  verb :: verb
  url :: string
  json_body :: dict
  headers :: "(string \<times> string option) list"

text \<open>An exception caught by \<^verbatim>\<open>except Exception as e\<close>; the string is \<^verbatim>\<open>str(e)\<close>.\<close>

datatype exn = Exception string

fun str :: "exn \<Rightarrow> string" where
  "str (Exception msg) = msg"

text \<open>
  What \<^verbatim>\<open>requests.post\<close> / \<^verbatim>\<open>requests.patch\<close> do with a request: they return a response
  with some status code (which the notebook never inspects) or raise.
\<close>

datatype outcome = Response nat | Raises exn

subsection \<open>Environment and world\<close>

text \<open>
  The environment holds what the code reads from outside: the API key taken from
  \<^verbatim>\<open>os.environ\<close>, the successive results of \<^verbatim>\<open>str(uuid.uuid4())\<close>, the successive
  results of \<^verbatim>\<open>datetime.datetime.utcnow().isoformat()\<close>, and the behaviour of the
  transport as a function of the requests made so far and the request at hand.
\<close>

record env =
  LANGSMITH_API_KEY :: "string option"
  uuid4 :: "nat \<Rightarrow> string"
  utcnow :: "nat \<Rightarrow> string"
  requests_send :: "request list \<Rightarrow> request \<Rightarrow> outcome"

text \<open>
  The world counts the UUIDs drawn and the clock readings taken, records every request
  handed to \<^verbatim>\<open>requests\<close> (whether or not the call then raises), and holds the notebook's
  global variables \<^verbatim>\<open>run_id\<close> and \<^verbatim>\<open>events\<close>.
\<close>

record world =
  uuids_drawn :: nat
  clock_reads :: nat
  sent :: "request list"
  global_run_id :: string
  events :: "json list"

definition LANGCHAIN_ENDPOINT :: string where
  "LANGCHAIN_ENDPOINT = ''https://api.smith.langchain.com''"

definition project_name :: string where
  "project_name = ''default''"

text \<open>A value of type \<^verbatim>\<open>Optional[...]\<close> placed in a JSON payload.\<close>

fun optional :: "('a \<Rightarrow> json) \<Rightarrow> 'a option \<Rightarrow> json" where
  "optional f None = JNull"
| "optional f (Some x) = f x"

text \<open>
  Handing a request to the transport: the request is recorded, then the call returns
  (the response is dropped by every caller in the notebook) or raises.
\<close>

definition submit :: "env \<Rightarrow> request \<Rightarrow> world \<Rightarrow> (exn + unit) \<times> world" where
  "submit E req w =
     (case requests_send E (sent w) req of
        Response status \<Rightarrow> (Inr (), w\<lparr>sent := sent w @ [req]\<rparr>)
      | Raises e \<Rightarrow> (Inl e, w\<lparr>sent := sent w @ [req]\<rparr>))"

subsection \<open>RunLogger\<close>

text \<open>
  \<^verbatim>\<open>
  def post_run(self, data, name, run_id, parent_run_id=None):
      requests.post(
          f"{LANGCHAIN_ENDPOINT}/runs",
          json={"id": run_id, "name": name, "run_type": "chain",
                "parent_run_id": parent_run_id, "inputs": data,
                "start_time": datetime.datetime.utcnow().isoformat(),
                "session_name": project_name},
          headers={"x-api-key": LANGSMITH_API_KEY})
  \<close>
\<close>

definition post_request :: "env \<Rightarrow> dict \<Rightarrow> string \<Rightarrow> string \<Rightarrow> string option \<Rightarrow> string \<Rightarrow> request" where
  "post_request E data name run_id parent_run_id now =
     \<lparr>verb = POST,
      url = LANGCHAIN_ENDPOINT @ ''/runs'',
      json_body =
        [(''id'', JStr run_id),
         (''name'', JStr name),
         (''run_type'', JStr ''chain''),
         (''parent_run_id'', optional JStr parent_run_id),
         (''inputs'', JObj data),
         (''start_time'', JStr now),
         (''session_name'', JStr project_name)],
      headers = [(''x-api-key'', LANGSMITH_API_KEY E)]\<rparr>"

definition post_run :: "env \<Rightarrow> dict \<Rightarrow> string \<Rightarrow> string \<Rightarrow> string option \<Rightarrow> world \<Rightarrow> (exn + unit) \<times> world" where
  "post_run E data name run_id parent_run_id w =
     submit E (post_request E data name run_id parent_run_id (utcnow E (clock_reads w)))
       (w\<lparr>clock_reads := clock_reads w + 1\<rparr>)"

text \<open>
  \<^verbatim>\<open>
  def patch_run(self, run_id, output=None, error=None):
      requests.patch(
          f"{LANGCHAIN_ENDPOINT}/runs/{run_id}",
          json={"error": error, "outputs": output,
                "end_time": datetime.datetime.utcnow().isoformat()},
          headers={"x-api-key": LANGSMITH_API_KEY})
  \<close>
\<close>

definition patch_request :: "env \<Rightarrow> string \<Rightarrow> dict option \<Rightarrow> string option \<Rightarrow> string \<Rightarrow> request" where
  "patch_request E run_id output error now =
     \<lparr>verb = PATCH,
      url = LANGCHAIN_ENDPOINT @ ''/runs/'' @ run_id,
      json_body =
        [(''error'', optional JStr error),
         (''outputs'', optional JObj output),
         (''end_time'', JStr now)],
      headers = [(''x-api-key'', LANGSMITH_API_KEY E)]\<rparr>"

definition patch_run :: "env \<Rightarrow> string \<Rightarrow> dict option \<Rightarrow> string option \<Rightarrow> world \<Rightarrow> (exn + unit) \<times> world" where
  "patch_run E run_id output error w =
     submit E (patch_request E run_id output error (utcnow E (clock_reads w)))
       (w\<lparr>clock_reads := clock_reads w + 1\<rparr>)"

subsection \<open>The traced function\<close>

text \<open>
  \<^verbatim>\<open>
  def fibonacci(n, depth=0, parent_run_id=None):
      run_id = str(uuid.uuid4())
      logger.post_run({"n": n}, f"fibonacci_recursive", run_id, parent_run_id=parent_run_id)
      try:
          if n <= 1:
              result = n
          else:
              result = fibonacci(n - 1, depth + 1, parent_run_id=run_id) + fibonacci(
                  n - 2, depth + 1, parent_run_id=run_id)
          logger.patch_run(run_id, output={"result": result})
          return result
      except Exception as e:
          logger.patch_run(run_id, error=str(e))
          raise
  \<close>
  The handler sends the error and re-raises \<open>e\<close>; when the handler's own \<^verbatim>\<open>patch_run\<close>
  raises, that new exception is the one that leaves the function.
\<close>

definition except_handler :: "env \<Rightarrow> string \<Rightarrow> exn \<Rightarrow> world \<Rightarrow> (exn + int) \<times> world" where
  "except_handler E run_id e w =
     (case patch_run E run_id None (Some (str e)) w of
        (Inr u, w') \<Rightarrow> (Inl e, w')
      | (Inl e', w') \<Rightarrow> (Inl e', w'))"

function fibonacci :: "env \<Rightarrow> int \<Rightarrow> int \<Rightarrow> string option \<Rightarrow> world \<Rightarrow> (exn + int) \<times> world" where
  "fibonacci E n depth parent_run_id w =
     (let run_id = uuid4 E (uuids_drawn w) in
      case post_run E [(''n'', JInt n)] ''fibonacci_recursive'' run_id parent_run_id
             (w\<lparr>uuids_drawn := uuids_drawn w + 1\<rparr>) of
        (Inl e, w1) \<Rightarrow> (Inl e, w1)
      | (Inr u, w1) \<Rightarrow>
          (case (if n \<le> 1 then (Inr n, w1)
                 else (case fibonacci E (n - 1) (depth + 1) (Some run_id) w1 of
                         (Inl e, w2) \<Rightarrow> (Inl e, w2)
                       | (Inr a, w2) \<Rightarrow>
                           (case fibonacci E (n - 2) (depth + 1) (Some run_id) w2 of
                              (Inl e, w3) \<Rightarrow> (Inl e, w3)
                            | (Inr b, w3) \<Rightarrow> (Inr (a + b), w3)))) of
             (Inr result, w4) \<Rightarrow>
               (case patch_run E run_id (Some [(''result'', JInt result)]) None w4 of
                  (Inr u', w5) \<Rightarrow> (Inr result, w5)
                | (Inl e, w5) \<Rightarrow> except_handler E run_id e w5)
           | (Inl e, w4) \<Rightarrow> except_handler E run_id e w4))"
  by pat_completeness auto
termination
  by (relation "measure (\<lambda>(E, n, depth, parent_run_id, w). nat n)") auto

declare fibonacci.simps [simp del]

subsection \<open>The notebook's first cells: one run, with events\<close>

text \<open>
  \<^verbatim>\<open>
  run_id = str(uuid.uuid4())
  res = requests.post(
      f"{LANGCHAIN_ENDPOINT}/runs",
      json={"id": run_id, "name": "MyFirstRun", "run_type": "chain",
            "start_time": datetime.datetime.utcnow().isoformat(),
            "inputs": {"text": "Foo"},
            "tags": ["langsmith", "rest", "my-example"]},
      headers={"x-api-key": LANGSMITH_API_KEY})
  \<close>
\<close>

definition create_my_first_run :: "env \<Rightarrow> world \<Rightarrow> (exn + unit) \<times> world" where
  "create_my_first_run E w =
     (let run_id = uuid4 E (uuids_drawn w) in
      submit E
        \<lparr>verb = POST,
         url = LANGCHAIN_ENDPOINT @ ''/runs'',
         json_body =
           [(''id'', JStr run_id),
            (''name'', JStr ''MyFirstRun''),
            (''run_type'', JStr ''chain''),
            (''start_time'', JStr (utcnow E (clock_reads w))),
            (''inputs'', JObj [(''text'', JStr ''Foo'')]),
            (''tags'', JArr [JStr ''langsmith'', JStr ''rest'', JStr ''my-example''])],
         headers = [(''x-api-key'', LANGSMITH_API_KEY E)]\<rparr>
        (w\<lparr>uuids_drawn := uuids_drawn w + 1, clock_reads := clock_reads w + 1,
           global_run_id := run_id\<rparr>))"

text \<open>
  \<^verbatim>\<open>
  events = []
  events.append({"event_name": "retry", "reason": "never gonna give you up"})
  events.append({"event_name": "new_token", "value": "foo"})
  \<close>
\<close>

definition events_append :: "json \<Rightarrow> world \<Rightarrow> world" where
  "events_append ev w = w\<lparr>events := events w @ [ev]\<rparr>"

definition add_events :: "world \<Rightarrow> world" where
  "add_events w =
     events_append (JObj [(''event_name'', JStr ''new_token''), (''value'', JStr ''foo'')])
       (events_append
          (JObj [(''event_name'', JStr ''retry''), (''reason'', JStr ''never gonna give you up'')])
          (w\<lparr>events := []\<rparr>))"

text \<open>
  \<^verbatim>\<open>
  requests.patch(
      f"{LANGCHAIN_ENDPOINT}/runs/{run_id}",
      json={"outputs": {"my_output": "Bar"},
            "end_time": datetime.datetime.utcnow().isoformat(),
            "events": events},
      headers={"x-api-key": LANGSMITH_API_KEY})
  \<close>
\<close>

definition update_my_first_run :: "env \<Rightarrow> world \<Rightarrow> (exn + unit) \<times> world" where
  "update_my_first_run E w =
     submit E
       \<lparr>verb = PATCH,
        url = LANGCHAIN_ENDPOINT @ ''/runs/'' @ global_run_id w,
        json_body =
          [(''outputs'', JObj [(''my_output'', JStr ''Bar'')]),
           (''end_time'', JStr (utcnow E (clock_reads w))),
           (''events'', JArr (events w))],
        headers = [(''x-api-key'', LANGSMITH_API_KEY E)]\<rparr>
       (w\<lparr>clock_reads := clock_reads w + 1\<rparr>)"

subsection \<open>Reading the request log\<close>

text \<open>The value a request's payload holds under a key, if the key is present.\<close>

definition field :: "string \<Rightarrow> request \<Rightarrow> json option" where
  "field k r = map_of (json_body r) k"

definition keys :: "request \<Rightarrow> string list" where
  "keys r = map fst (json_body r)"

text \<open>The requests recorded in \<open>w'\<close> after those of \<open>w\<close>.\<close>

definition new_requests :: "world \<Rightarrow> world \<Rightarrow> request list" where
  "new_requests w w' = drop (length (sent w)) (sent w')"

definition creates :: "request list \<Rightarrow> request list" where
  "creates rs = filter (\<lambda>r. verb r = POST) rs"

definition updates :: "request list \<Rightarrow> request list" where
  "updates rs = filter (\<lambda>r. verb r = PATCH) rs"

definition created_ids :: "request list \<Rightarrow> json option list" where
  "created_ids rs = map (field ''id'') (creates rs)"

text \<open>
  \<open>grows E w w'\<close>: the log of \<open>w'\<close> extends the log of \<open>w\<close>, and the runs created in
  between carry, in order, exactly the UUIDs drawn in between.
\<close>

definition grows :: "env \<Rightarrow> world \<Rightarrow> world \<Rightarrow> bool" where
  "grows E w w' \<longleftrightarrow>
     uuids_drawn w \<le> uuids_drawn w' \<and>
     take (length (sent w)) (sent w') = sent w \<and>
     length (sent w) \<le> length (sent w') \<and>
     created_ids (new_requests w w') =
       map (\<lambda>i. Some (JStr (uuid4 E i))) [uuids_drawn w ..< uuids_drawn w']"

text \<open>
  \<open>well_linked known rs\<close>: every create request in \<open>rs\<close> names as its parent a value
  of \<open>known\<close> or the id of a create request earlier in \<open>rs\<close>.
\<close>

fun well_linked :: "json option set \<Rightarrow> request list \<Rightarrow> bool" where
  "well_linked known [] = True"
| "well_linked known (r # rs) =
     (if verb r = POST
      then field ''parent_run_id'' r \<in> known \<and> well_linked (insert (field ''id'' r) known) rs
      else well_linked known rs)"

definition links :: "json option set \<Rightarrow> world \<Rightarrow> world \<Rightarrow> bool" where
  "links known w w' \<longleftrightarrow>
     take (length (sent w)) (sent w') = sent w \<and> well_linked known (new_requests w w')"

text \<open>
  The outcomes the transport gave to the requests \<open>rs\<close>, made one after another after the
  requests \<open>h\<close>; the exceptions among them, in the order raised; and the exceptions the
  transport raised between two worlds.
\<close>

fun outcomes :: "env \<Rightarrow> request list \<Rightarrow> request list \<Rightarrow> outcome list" where
  "outcomes E h [] = []"
| "outcomes E h (r # rs) = requests_send E h r # outcomes E (h @ [r]) rs"

fun raised :: "outcome list \<Rightarrow> exn list" where
  "raised [] = []"
| "raised (Response s # os) = raised os"
| "raised (Raises e # os) = e # raised os"

definition raised_between :: "env \<Rightarrow> world \<Rightarrow> world \<Rightarrow> exn list" where
  "raised_between E w w' = raised (outcomes E (sent w) (new_requests w w'))"

text \<open>
  Top-level calls of \<^verbatim>\<open>fibonacci\<close> made one after another in a session, each with its
  arguments \<open>(n, depth, parent_run_id)\<close>; a call that raises ends only itself.
\<close>

fun fibonacci_calls :: "env \<Rightarrow> (int \<times> int \<times> string option) list \<Rightarrow> world \<Rightarrow> world" where
  "fibonacci_calls E [] w = w"
| "fibonacci_calls E ((n, depth, parent_run_id) # cs) w =
     fibonacci_calls E cs (snd (fibonacci E n depth parent_run_id w))"

text \<open>
  The two halves of the body of \<^verbatim>\<open>fibonacci\<close>, named so that its equation can be read
  in steps: the two recursive calls with their sum, and what follows the computation of
  the result inside and after the \<^verbatim>\<open>try\<close> block.
\<close>

definition children :: "env \<Rightarrow> int \<Rightarrow> int \<Rightarrow> string \<Rightarrow> world \<Rightarrow> (exn + int) \<times> world" where
  "children E n depth run_id w1 =
     (case fibonacci E (n - 1) (depth + 1) (Some run_id) w1 of
        (Inl e, w2) \<Rightarrow> (Inl e, w2)
      | (Inr a, w2) \<Rightarrow>
          (case fibonacci E (n - 2) (depth + 1) (Some run_id) w2 of
             (Inl e, w3) \<Rightarrow> (Inl e, w3)
           | (Inr b, w3) \<Rightarrow> (Inr (a + b), w3)))"

definition finish :: "env \<Rightarrow> string \<Rightarrow> (exn + int) \<times> world \<Rightarrow> (exn + int) \<times> world" where
  "finish E run_id body =
     (case body of
        (Inr result, w4) \<Rightarrow>
          (case patch_run E run_id (Some [(''result'', JInt result)]) None w4 of
             (Inr u', w5) \<Rightarrow> (Inr result, w5)
           | (Inl e, w5) \<Rightarrow> except_handler E run_id e w5)
      | (Inl e, w4) \<Rightarrow> except_handler E run_id e w4)"

subsection \<open>The Fibonacci numbers\<close>

text \<open>The mathematical sequence that \<^verbatim>\<open>fibonacci\<close> is compared with.\<close>

fun fib_spec :: "nat \<Rightarrow> int" where
  "fib_spec 0 = 0"
| "fib_spec (Suc 0) = 1"
| "fib_spec (Suc (Suc k)) = fib_spec (Suc k) + fib_spec k"

text \<open>The value that \<^verbatim>\<open>fibonacci(n)\<close> computes.\<close>

definition fib_value :: "int \<Rightarrow> int" where
  "fib_value n = (if n \<le> 1 then n else fib_spec (nat n))"

subsection \<open>Concrete environments\<close>

text \<open>
  A transport that always answers 200, one that fails every create request, one whose
  third call fails, and one that answers 500 to everything; UUIDs and timestamps are told
  apart by their length.
\<close>

definition env_with :: "(request list \<Rightarrow> request \<Rightarrow> outcome) \<Rightarrow> env" where
  "env_with t =
     \<lparr>LANGSMITH_API_KEY = Some ''key'',
      uuid4 = (\<lambda>i. replicate (Suc i) CHR ''u''),
      utcnow = (\<lambda>i. replicate (Suc i) CHR ''t''),
      requests_send = t\<rparr>"

definition env_ok :: env where
  "env_ok = env_with (\<lambda>h r. Response 200)"

definition env_no_create :: env where
  "env_no_create =
     env_with (\<lambda>h r. if verb r = POST then Raises (Exception ''ConnectionError'') else Response 200)"

definition env_flaky :: env where
  "env_flaky =
     env_with (\<lambda>h r. if length h = 2 then Raises (Exception ''ConnectionError'') else Response 200)"

definition env_500 :: env where
  "env_500 = env_with (\<lambda>h r. Response 500)"

text \<open>A source of UUIDs that returns the same value every time.\<close>

definition env_collide :: env where
  "env_collide = env_ok\<lparr>uuid4 := (\<lambda>i. ''u'')\<rparr>"

definition world0 :: world where
  "world0 = \<lparr>uuids_drawn = 0, clock_reads = 0, sent = [], global_run_id = [], events = []\<rparr>"

section \<open>Effects of the logger calls\<close>

lemma submit_snd: "snd (submit E req w) = w\<lparr>sent := sent w @ [req]\<rparr>"
  by (simp add: submit_def split: outcome.split)

lemma submit_fst:
  "fst (submit E req w) =
     (case requests_send E (sent w) req of Response s \<Rightarrow> Inr () | Raises e \<Rightarrow> Inl e)"
  by (simp add: submit_def split: outcome.split)

lemma post_run_snd:
  "snd (post_run E data name run_id parent_run_id w) =
     w\<lparr>clock_reads := clock_reads w + 1,
       sent := sent w @ [post_request E data name run_id parent_run_id (utcnow E (clock_reads w))]\<rparr>"
  by (simp add: post_run_def submit_snd)

lemma post_run_fst:
  "fst (post_run E data name run_id parent_run_id w) =
     (case requests_send E (sent w)
             (post_request E data name run_id parent_run_id (utcnow E (clock_reads w))) of
        Response s \<Rightarrow> Inr () | Raises e \<Rightarrow> Inl e)"
  by (simp add: post_run_def submit_fst)

lemma patch_run_snd:
  "snd (patch_run E run_id output error w) =
     w\<lparr>clock_reads := clock_reads w + 1,
       sent := sent w @ [patch_request E run_id output error (utcnow E (clock_reads w))]\<rparr>"
  by (simp add: patch_run_def submit_snd)

lemma patch_run_fst:
  "fst (patch_run E run_id output error w) =
     (case requests_send E (sent w)
             (patch_request E run_id output error (utcnow E (clock_reads w))) of
        Response s \<Rightarrow> Inr () | Raises e \<Rightarrow> Inl e)"
  by (simp add: patch_run_def submit_fst)

lemma except_handler_snd:
  "snd (except_handler E run_id e w) = snd (patch_run E run_id None (Some (str e)) w)"
  by (simp add: except_handler_def split: prod.split sum.split)

lemma except_handler_raises: "\<exists>e'. fst (except_handler E run_id e w) = Inl e'"
  by (simp add: except_handler_def split: prod.split sum.split)

lemma post_run_cases:
  obtains (returns) s where
      "requests_send E (sent w) (post_request E data name run_id p (utcnow E (clock_reads w))) = Response s"
      "post_run E data name run_id p w = (Inr (), snd (post_run E data name run_id p w))"
  | (raises) e where
      "requests_send E (sent w) (post_request E data name run_id p (utcnow E (clock_reads w))) = Raises e"
      "post_run E data name run_id p w = (Inl e, snd (post_run E data name run_id p w))"
  by (cases "requests_send E (sent w) (post_request E data name run_id p (utcnow E (clock_reads w)))")
     (simp_all add: post_run_def submit_def)

lemma patch_run_cases:
  obtains (returns) s where
      "requests_send E (sent w) (patch_request E run_id output error (utcnow E (clock_reads w))) = Response s"
      "patch_run E run_id output error w = (Inr (), snd (patch_run E run_id output error w))"
  | (raises) e where
      "requests_send E (sent w) (patch_request E run_id output error (utcnow E (clock_reads w))) = Raises e"
      "patch_run E run_id output error w = (Inl e, snd (patch_run E run_id output error w))"
  by (cases "requests_send E (sent w) (patch_request E run_id output error (utcnow E (clock_reads w)))")
     (simp_all add: patch_run_def submit_def)

lemma fold_events_append: "fold events_append evs w = w\<lparr>events := events w @ evs\<rparr>"
  by (induction evs arbitrary: w) (simp_all add: events_append_def)

lemma update_my_first_run_snd:
  "snd (update_my_first_run E w) =
     w\<lparr>clock_reads := clock_reads w + 1,
       sent := sent w @
         [\<lparr>verb = PATCH,
           url = LANGCHAIN_ENDPOINT @ ''/runs/'' @ global_run_id w,
           json_body =
             [(''outputs'', JObj [(''my_output'', JStr ''Bar'')]),
              (''end_time'', JStr (utcnow E (clock_reads w))),
              (''events'', JArr (events w))],
           headers = [(''x-api-key'', LANGSMITH_API_KEY E)]\<rparr>]\<rparr>"
  by (simp add: update_my_first_run_def submit_snd)

lemma create_my_first_run_snd:
  "snd (create_my_first_run E w) =
     w\<lparr>uuids_drawn := uuids_drawn w + 1,
       clock_reads := clock_reads w + 1,
       sent := sent w @
         [\<lparr>verb = POST,
           url = LANGCHAIN_ENDPOINT @ ''/runs'',
           json_body =
             [(''id'', JStr (uuid4 E (uuids_drawn w))),
              (''name'', JStr ''MyFirstRun''),
              (''run_type'', JStr ''chain''),
              (''start_time'', JStr (utcnow E (clock_reads w))),
              (''inputs'', JObj [(''text'', JStr ''Foo'')]),
              (''tags'', JArr [JStr ''langsmith'', JStr ''rest'', JStr ''my-example''])],
           headers = [(''x-api-key'', LANGSMITH_API_KEY E)]\<rparr>],
       global_run_id := uuid4 E (uuids_drawn w)\<rparr>"
  by (simp add: create_my_first_run_def submit_snd Let_def)

lemma fib_spec_small: "0 \<le> m \<Longrightarrow> m \<le> 1 \<Longrightarrow> fib_spec (nat m) = m"
proof -
  assume "0 \<le> m" "m \<le> 1"
  then have "m = 0 \<or> m = 1" by arith
  then show ?thesis by auto
qed

lemma fib_spec_step:
  "1 < n \<Longrightarrow> fib_spec (nat n) = fib_spec (nat (n - 1)) + fib_spec (nat (n - 2))"
proof -
  assume "1 < n"
  then have "nat n = Suc (Suc (nat (n - 2)))" "nat (n - 1) = Suc (nat (n - 2))" by arith+
  then show ?thesis by simp
qed

section \<open>The log of a fibonacci call\<close>

lemma fibonacci_unfold:
  "fibonacci E n depth p w =
     (case post_run E [(''n'', JInt n)] ''fibonacci_recursive'' (uuid4 E (uuids_drawn w)) p
             (w\<lparr>uuids_drawn := uuids_drawn w + 1\<rparr>) of
        (Inl e, w1) \<Rightarrow> (Inl e, w1)
      | (Inr u, w1) \<Rightarrow>
          finish E (uuid4 E (uuids_drawn w))
            (if n \<le> 1 then (Inr n, w1) else children E n depth (uuid4 E (uuids_drawn w)) w1))"
  by (subst fibonacci.simps, unfold Let_def finish_def children_def, rule refl)

lemma created_ids_append: "created_ids (xs @ ys) = created_ids xs @ created_ids ys"
  by (simp add: created_ids_def creates_def)

lemma grows_iff:
  "grows E w w' \<longleftrightarrow>
     (\<exists>new. sent w' = sent w @ new \<and> uuids_drawn w \<le> uuids_drawn w' \<and>
        created_ids new = map (\<lambda>i. Some (JStr (uuid4 E i))) [uuids_drawn w ..< uuids_drawn w'])"
proof
  assume g: "grows E w w'"
  then have "sent w' = sent w @ new_requests w w'"
    unfolding grows_def new_requests_def by (metis append_take_drop_id)
  with g show "\<exists>new. sent w' = sent w @ new \<and> uuids_drawn w \<le> uuids_drawn w' \<and>
        created_ids new = map (\<lambda>i. Some (JStr (uuid4 E i))) [uuids_drawn w ..< uuids_drawn w']"
    unfolding grows_def by blast
next
  assume "\<exists>new. sent w' = sent w @ new \<and> uuids_drawn w \<le> uuids_drawn w' \<and>
        created_ids new = map (\<lambda>i. Some (JStr (uuid4 E i))) [uuids_drawn w ..< uuids_drawn w']"
  then show "grows E w w'"
    by (auto simp: grows_def new_requests_def)
qed

lemma grows_refl: "grows E w w"
  by (simp add: grows_def new_requests_def created_ids_def creates_def)

lemma grows_trans:
  assumes "grows E a b" "grows E b c"
  shows "grows E a c"
proof -
  from assms(1) obtain n1 where 1: "sent b = sent a @ n1" "uuids_drawn a \<le> uuids_drawn b"
    "created_ids n1 = map (\<lambda>i. Some (JStr (uuid4 E i))) [uuids_drawn a ..< uuids_drawn b]"
    unfolding grows_iff by blast
  from assms(2) obtain n2 where 2: "sent c = sent b @ n2" "uuids_drawn b \<le> uuids_drawn c"
    "created_ids n2 = map (\<lambda>i. Some (JStr (uuid4 E i))) [uuids_drawn b ..< uuids_drawn c]"
    unfolding grows_iff by blast
  have "[uuids_drawn a ..< uuids_drawn c] = [uuids_drawn a ..< uuids_drawn b] @ [uuids_drawn b ..< uuids_drawn c]"
    using 1(2) 2(2) by (metis le_Suc_ex upt_add_eq_append)
  then have "created_ids (n1 @ n2) = map (\<lambda>i. Some (JStr (uuid4 E i))) [uuids_drawn a ..< uuids_drawn c]"
    by (simp add: created_ids_append 1(3) 2(3))
  moreover have "sent c = sent a @ (n1 @ n2)" using 1(1) 2(1) by simp
  moreover have "uuids_drawn a \<le> uuids_drawn c" using 1(2) 2(2) by simp
  ultimately show ?thesis unfolding grows_iff by blast
qed

lemma grows_patch_run:
  assumes "patch_run E run_id output error w = (r, w')"
  shows "grows E w w'"
proof -
  have "w' = snd (patch_run E run_id output error w)" using assms by simp
  then show ?thesis
    by (simp add: patch_run_snd grows_def new_requests_def created_ids_def creates_def
        patch_request_def)
qed

lemma grows_except_handler:
  assumes "except_handler E run_id e w = (r, w')"
  shows "grows E w w'"
proof -
  have "w' = snd (except_handler E run_id e w)" using assms by simp
  then show ?thesis
    by (simp add: except_handler_snd patch_run_snd grows_def new_requests_def created_ids_def
        creates_def patch_request_def)
qed

lemma grows_post_run:
  assumes "post_run E data name (uuid4 E (uuids_drawn w)) p
             (w\<lparr>uuids_drawn := uuids_drawn w + 1\<rparr>) = (r, w')"
  shows "grows E w w'"
proof -
  have "w' = snd (post_run E data name (uuid4 E (uuids_drawn w)) p
                    (w\<lparr>uuids_drawn := uuids_drawn w + 1\<rparr>))"
    using assms by simp
  then show ?thesis
    by (simp add: post_run_snd grows_def new_requests_def created_ids_def creates_def
        post_request_def field_def)
qed

lemma grows_finish:
  assumes "finish E run_id (r, w4) = (r', w')"
  shows "grows E w4 w'"
  using assms
  by (auto simp: finish_def split: sum.splits prod.splits
      intro: grows_patch_run grows_except_handler grows_trans)


lemma fibonacci_grows_after_post:
  assumes "fibonacci E n depth p w = (r, w')"
  shows "grows E
           (snd (post_run E [(''n'', JInt n)] ''fibonacci_recursive'' (uuid4 E (uuids_drawn w)) p
                   (w\<lparr>uuids_drawn := uuids_drawn w + 1\<rparr>))) w'"
  using assms
proof (induction "nat n" arbitrary: n depth p w r w' rule: less_induct)
  case less
  let ?rid = "uuid4 E (uuids_drawn w)"
  obtain r1 w1 where post:
    "post_run E [(''n'', JInt n)] ''fibonacci_recursive'' ?rid p
       (w\<lparr>uuids_drawn := uuids_drawn w + 1\<rparr>) = (r1, w1)"
    by (cases "post_run E [(''n'', JInt n)] ''fibonacci_recursive'' ?rid p
       (w\<lparr>uuids_drawn := uuids_drawn w + 1\<rparr>)")
  have sub: "grows E v v'" if "nat m < nat n" "fibonacci E m d q v = (x, v')" for m d q v x v'
  proof -
    obtain y v1 where "post_run E [(''n'', JInt m)] ''fibonacci_recursive'' (uuid4 E (uuids_drawn v)) q
       (v\<lparr>uuids_drawn := uuids_drawn v + 1\<rparr>) = (y, v1)"
      using prod.exhaust by blast
    then show ?thesis
      using less.hyps [OF that] grows_post_run grows_trans by fastforce
  qed
  have "grows E w1 w'"
  proof (cases r1)
    case (Inl e)
    with post less.prems have "w' = w1" by (simp add: fibonacci_unfold)
    then show ?thesis by (simp add: grows_refl)
  next
    case (Inr u)
    obtain rb w4 where body:
      "(if n \<le> 1 then (Inr n, w1) else children E n depth ?rid w1) = (rb, w4)"
      by (cases "if n \<le> 1 then (Inr n, w1) else children E n depth ?rid w1")
    have g4: "grows E w1 w4"
    proof (cases "n \<le> 1")
      case True
      with body show ?thesis by (simp add: grows_refl)
    next
      case False
      then have lt: "nat (n - 1) < nat n" "nat (n - 2) < nat n" by arith+
      obtain r2 w2 where f1: "fibonacci E (n - 1) (depth + 1) (Some ?rid) w1 = (r2, w2)"
        by (cases "fibonacci E (n - 1) (depth + 1) (Some ?rid) w1")
      obtain r3 w3 where f2: "fibonacci E (n - 2) (depth + 1) (Some ?rid) w2 = (r3, w3)"
        by (cases "fibonacci E (n - 2) (depth + 1) (Some ?rid) w2")
      have g2: "grows E w1 w2" using sub [OF lt(1) f1] .
      have g3: "grows E w2 w3" using sub [OF lt(2) f2] .
      from False body f1 f2 have "w4 = w2 \<or> w4 = w3"
        by (auto simp: children_def split: sum.splits)
      with g2 g3 show ?thesis using grows_trans by blast
    qed
    from Inr post less.prems body have "finish E ?rid (rb, w4) = (r, w')"
      by (simp add: fibonacci_unfold)
    then have "grows E w4 w'" by (rule grows_finish)
    with g4 show ?thesis using grows_trans by blast
  qed
  with post show ?case by simp
qed

lemma fibonacci_grows:
  assumes "fibonacci E n depth p w = (r, w')"
  shows "grows E w w'"
proof -
  obtain r1 w1 where post:
    "post_run E [(''n'', JInt n)] ''fibonacci_recursive'' (uuid4 E (uuids_drawn w)) p
       (w\<lparr>uuids_drawn := uuids_drawn w + 1\<rparr>) = (r1, w1)"
    using prod.exhaust by blast
  from fibonacci_grows_after_post [OF assms] post have "grows E w1 w'" by simp
  with grows_post_run [OF post] show ?thesis by (rule grows_trans)
qed

lemma fibonacci_first_request:
  "\<exists>rest. new_requests w (snd (fibonacci E n depth p w)) =
     post_request E [(''n'', JInt n)] ''fibonacci_recursive'' (uuid4 E (uuids_drawn w)) p
       (utcnow E (clock_reads w)) # rest"
proof -
  let ?w1 = "snd (post_run E [(''n'', JInt n)] ''fibonacci_recursive'' (uuid4 E (uuids_drawn w)) p
                   (w\<lparr>uuids_drawn := uuids_drawn w + 1\<rparr>))"
  have "grows E ?w1 (snd (fibonacci E n depth p w))"
    by (rule fibonacci_grows_after_post [of E n depth p w "fst (fibonacci E n depth p w)"]) simp
  then obtain new where "sent (snd (fibonacci E n depth p w)) = sent ?w1 @ new"
    unfolding grows_iff by blast
  then show ?thesis by (simp add: post_run_snd new_requests_def)
qed

lemma fibonacci_draws: "uuids_drawn w < uuids_drawn (snd (fibonacci E n depth p w))"
proof -
  let ?w1 = "snd (post_run E [(''n'', JInt n)] ''fibonacci_recursive'' (uuid4 E (uuids_drawn w)) p
                   (w\<lparr>uuids_drawn := uuids_drawn w + 1\<rparr>))"
  have "grows E ?w1 (snd (fibonacci E n depth p w))"
    by (rule fibonacci_grows_after_post [of E n depth p w "fst (fibonacci E n depth p w)"]) simp
  then have "uuids_drawn ?w1 \<le> uuids_drawn (snd (fibonacci E n depth p w))"
    by (simp add: grows_def)
  then show ?thesis by (simp add: post_run_snd)
qed

lemma fibonacci_ok_2:
  "snd (fibonacci env_ok 2 0 None world0) =
     \<lparr>uuids_drawn = 3, clock_reads = 6,
      sent =
        [post_request env_ok [(''n'', JInt 2)] ''fibonacci_recursive'' ''u'' None ''t'',
         post_request env_ok [(''n'', JInt 1)] ''fibonacci_recursive'' ''uu'' (Some ''u'') ''tt'',
         patch_request env_ok ''uu'' (Some [(''result'', JInt 1)]) None ''ttt'',
         post_request env_ok [(''n'', JInt 0)] ''fibonacci_recursive'' ''uuu'' (Some ''u'') ''tttt'',
         patch_request env_ok ''uuu'' (Some [(''result'', JInt 0)]) None ''ttttt'',
         patch_request env_ok ''u'' (Some [(''result'', JInt 1)]) None ''tttttt''],
      global_run_id = [], events = []\<rparr>"
  by (simp add: fibonacci.simps [of _ 2] fibonacci.simps [of _ 1] fibonacci.simps [of _ 0]
      Let_def except_handler_def post_run_def patch_run_def submit_def
      env_ok_def env_with_def world0_def)

section \<open>Parent links in the log\<close>

lemma well_linked_mono: "known \<subseteq> known' \<Longrightarrow> well_linked known rs \<Longrightarrow> well_linked known' rs"
proof (induction rs arbitrary: known known')
  case Nil
  then show ?case by simp
next
  case (Cons r rs)
  show ?case
  proof (cases "verb r = POST")
    case True
    with Cons.prems have par: "field ''parent_run_id'' r \<in> known'"
      and tl: "well_linked (insert (field ''id'' r) known) rs" by auto
    have "insert (field ''id'' r) known \<subseteq> insert (field ''id'' r) known'"
      using Cons.prems(1) by blast
    then have "well_linked (insert (field ''id'' r) known') rs"
      using tl by (rule Cons.IH)
    with par True show ?thesis by simp
  next
    case False
    with Cons show ?thesis by auto
  qed
qed

lemma well_linked_append:
  "well_linked known xs \<Longrightarrow> well_linked known ys \<Longrightarrow> well_linked known (xs @ ys)"
proof (induction xs arbitrary: known)
  case Nil
  then show ?case by simp
next
  case (Cons r xs)
  show ?case
  proof (cases "verb r = POST")
    case True
    have "well_linked (insert (field ''id'' r) known) ys"
      using Cons.prems(2) by (rule well_linked_mono [rotated]) blast
    with True Cons show ?thesis by simp
  next
    case False
    with Cons show ?thesis by simp
  qed
qed

lemma links_iff:
  "links known w w' \<longleftrightarrow> (\<exists>new. sent w' = sent w @ new \<and> well_linked known new)"
proof
  assume l: "links known w w'"
  then have "sent w' = sent w @ new_requests w w'"
    unfolding links_def new_requests_def by (metis append_take_drop_id)
  with l show "\<exists>new. sent w' = sent w @ new \<and> well_linked known new"
    unfolding links_def by blast
next
  assume "\<exists>new. sent w' = sent w @ new \<and> well_linked known new"
  then show "links known w w'"
    by (auto simp: links_def new_requests_def)
qed

lemma links_refl: "links known w w"
  by (simp add: links_def new_requests_def)

lemma links_trans: "links known a b \<Longrightarrow> links known b c \<Longrightarrow> links known a c"
  unfolding links_iff using well_linked_append by fastforce

lemma links_mono: "known \<subseteq> known' \<Longrightarrow> links known w w' \<Longrightarrow> links known' w w'"
  unfolding links_def using well_linked_mono by blast

lemma links_patch_run:
  assumes "patch_run E run_id output error w = (r, w')"
  shows "links known w w'"
proof -
  have "w' = snd (patch_run E run_id output error w)" using assms by simp
  then show ?thesis
    by (simp add: patch_run_snd links_def new_requests_def patch_request_def)
qed

lemma links_except_handler:
  assumes "except_handler E run_id e w = (r, w')"
  shows "links known w w'"
proof -
  have "w' = snd (except_handler E run_id e w)" using assms by simp
  then show ?thesis
    by (simp add: except_handler_snd patch_run_snd links_def new_requests_def patch_request_def)
qed

lemma links_finish:
  assumes "finish E run_id (r, w4) = (r', w')"
  shows "links known w4 w'"
  using assms
  by (auto simp: finish_def split: sum.splits prod.splits
      intro: links_patch_run links_except_handler links_trans)

lemma fibonacci_links:
  assumes "fibonacci E n depth p w = (r, w')"
  shows "links {Some (optional JStr p)} w w'"
  using assms
proof (induction "nat n" arbitrary: n depth p w r w' rule: less_induct)
  case less
  let ?rid = "uuid4 E (uuids_drawn w)"
  let ?known = "{Some (JStr ?rid), Some (optional JStr p)}"
  let ?post = "post_request E [(''n'', JInt n)] ''fibonacci_recursive'' ?rid p (utcnow E (clock_reads w))"
  obtain r1 w1 where post:
    "post_run E [(''n'', JInt n)] ''fibonacci_recursive'' ?rid p
       (w\<lparr>uuids_drawn := uuids_drawn w + 1\<rparr>) = (r1, w1)"
    using prod.exhaust by blast
  have sent1: "sent w1 = sent w @ [?post]"
    using post_run_snd [of E "[(''n'', JInt n)]" "''fibonacci_recursive''" ?rid p
        "w\<lparr>uuids_drawn := uuids_drawn w + 1\<rparr>"] post
    by simp
  have sub: "links ?known v v'"
    if "nat m < nat n" "fibonacci E m d (Some ?rid) v = (x, v')" for m d v x v'
    using less.hyps [OF that] by (rule links_mono [rotated]) simp
  have "links ?known w1 w'"
  proof (cases r1)
    case (Inl e)
    with post less.prems have "w' = w1" by (simp add: fibonacci_unfold)
    then show ?thesis by (simp add: links_refl)
  next
    case (Inr u)
    obtain rb w4 where body:
      "(if n \<le> 1 then (Inr n, w1) else children E n depth ?rid w1) = (rb, w4)"
      using prod.exhaust by blast
    have l4: "links ?known w1 w4"
    proof (cases "n \<le> 1")
      case True
      with body show ?thesis by (simp add: links_refl)
    next
      case False
      then have lt: "nat (n - 1) < nat n" "nat (n - 2) < nat n" by arith+
      obtain r2 w2 where f1: "fibonacci E (n - 1) (depth + 1) (Some ?rid) w1 = (r2, w2)"
        using prod.exhaust by blast
      obtain r3 w3 where f2: "fibonacci E (n - 2) (depth + 1) (Some ?rid) w2 = (r3, w3)"
        using prod.exhaust by blast
      have l2: "links ?known w1 w2" using sub [OF lt(1) f1] .
      have l3: "links ?known w2 w3" using sub [OF lt(2) f2] .
      from False body f1 f2 have "w4 = w2 \<or> w4 = w3"
        by (auto simp: children_def split: sum.splits)
      with l2 l3 show ?thesis using links_trans by blast
    qed
    from Inr post less.prems body have "finish E ?rid (rb, w4) = (r, w')"
      by (simp add: fibonacci_unfold)
    then have "links ?known w4 w'" by (rule links_finish)
    with l4 show ?thesis using links_trans by blast
  qed
  then obtain rest where rest: "sent w' = sent w1 @ rest" "well_linked ?known rest"
    unfolding links_iff by blast
  have "well_linked {Some (optional JStr p)} (?post # rest)"
    using rest(2) by (simp add: post_request_def field_def)
  moreover have "sent w' = sent w @ (?post # rest)"
    using rest(1) sent1 by simp
  ultimately show ?case unfolding links_iff by blast
qed

section \<open>The exceptions of a fibonacci call\<close>

lemma outcomes_append: "outcomes E h (xs @ ys) = outcomes E h xs @ outcomes E (h @ xs) ys"
  by (induction xs arbitrary: h) simp_all

lemma raised_append: "raised (xs @ ys) = raised xs @ raised ys"
  by (induction xs rule: raised.induct) simp_all

lemma raised_outcomes_append:
  "raised (outcomes E h (xs @ ys)) = raised (outcomes E h xs) @ raised (outcomes E (h @ xs) ys)"
  by (simp add: outcomes_append raised_append)

lemma patch_run_trace:
  assumes "patch_run E run_id output error w = (r, w')"
  shows "\<exists>req. sent w' = sent w @ [req] \<and>
           raised (outcomes E (sent w) [req]) = (case r of Inl e \<Rightarrow> [e] | Inr u \<Rightarrow> [])"
  using assms by (auto simp: patch_run_def submit_def split: outcome.splits)

lemma except_handler_trace:
  assumes "except_handler E run_id e w = (r, w')"
  shows "\<exists>new. sent w' = sent w @ new \<and> r = Inl (last (e # raised (outcomes E (sent w) new)))"
proof -
  obtain r0 w0 where p: "patch_run E run_id None (Some (str e)) w = (r0, w0)"
    using prod.exhaust by blast
  from patch_run_trace [OF p] obtain req where req: "sent w0 = sent w @ [req]"
    "raised (outcomes E (sent w) [req]) = (case r0 of Inl e \<Rightarrow> [e] | Inr u \<Rightarrow> [])" by blast
  from assms p have "w' = w0" "r = (case r0 of Inl e' \<Rightarrow> Inl e' | Inr u \<Rightarrow> Inl e)"
    by (auto simp: except_handler_def split: sum.splits)
  with req show ?thesis by (intro exI [of _ "[req]"]) (auto split: sum.splits)
qed

lemma finish_trace:
  assumes "finish E run_id (rb, w4) = (r, w')"
  shows "\<exists>new. sent w' = sent w4 @ new \<and>
           r = (case rb of
                  Inr v \<Rightarrow> if raised (outcomes E (sent w4) new) = [] then Inr v
                           else Inl (last (raised (outcomes E (sent w4) new)))
                | Inl e \<Rightarrow> Inl (last (e # raised (outcomes E (sent w4) new))))"
proof (cases rb)
  case (Inl e)
  with assms have "except_handler E run_id e w4 = (r, w')" by (simp add: finish_def)
  from except_handler_trace [OF this] Inl show ?thesis by simp
next
  case (Inr v)
  obtain r0 w5 where p: "patch_run E run_id (Some [(''result'', JInt v)]) None w4 = (r0, w5)"
    using prod.exhaust by blast
  from patch_run_trace [OF p] obtain req where req: "sent w5 = sent w4 @ [req]"
    "raised (outcomes E (sent w4) [req]) = (case r0 of Inl e \<Rightarrow> [e] | Inr u \<Rightarrow> [])" by blast
  show ?thesis
  proof (cases r0)
    case (Inr u)
    with assms p \<open>rb = Inr v\<close> have "r = Inr v" "w' = w5" by (simp_all add: finish_def)
    with req Inr \<open>rb = Inr v\<close> show ?thesis by (intro exI [of _ "[req]"]) simp
  next
    case (Inl e)
    with assms p \<open>rb = Inr v\<close> have "except_handler E run_id e w5 = (r, w')"
      by (simp add: finish_def)
    from except_handler_trace [OF this] obtain new where new: "sent w' = sent w5 @ new"
      "r = Inl (last (e # raised (outcomes E (sent w5) new)))" by blast
    have "raised (outcomes E (sent w4) (req # new)) = e # raised (outcomes E (sent w5) new)"
      using req Inl raised_outcomes_append [of E "sent w4" "[req]" new] by simp
    with new req \<open>rb = Inr v\<close> show ?thesis by (intro exI [of _ "req # new"]) simp
  qed
qed

lemma fib_value_step: "\<not> n \<le> 1 \<Longrightarrow> fib_value (n - 1) + fib_value (n - 2) = fib_value n"
  using fib_spec_small [of "n - 1"] fib_spec_small [of "n - 2"] fib_spec_step [of n]
  by (auto simp: fib_value_def)

lemma fibonacci_trace:
  assumes "fibonacci E n depth p w = (r, w')"
  shows "\<exists>new. sent w' = sent w @ new \<and>
           r = (if raised (outcomes E (sent w) new) = [] then Inr (fib_value n)
                else Inl (last (raised (outcomes E (sent w) new))))"
  using assms
proof (induction "nat n" arbitrary: n depth p w r w' rule: less_induct)
  case less
  let ?rid = "uuid4 E (uuids_drawn w)"
  let ?post = "post_request E [(''n'', JInt n)] ''fibonacci_recursive'' ?rid p (utcnow E (clock_reads w))"
  let ?R = "\<lambda>h new. raised (outcomes E h new)"
  obtain r1 w1 where post:
    "post_run E [(''n'', JInt n)] ''fibonacci_recursive'' ?rid p
       (w\<lparr>uuids_drawn := uuids_drawn w + 1\<rparr>) = (r1, w1)"
    using prod.exhaust by blast
  then have sent1: "sent w1 = sent w @ [?post]"
    and r1: "r1 = (case requests_send E (sent w) ?post of Response s \<Rightarrow> Inr () | Raises e \<Rightarrow> Inl e)"
    by (auto simp: post_run_def submit_def split: outcome.splits)
  show ?case
  proof (cases r1)
    case (Inl e)
    with post less.prems have "w' = w1" "r = Inl e" by (simp_all add: fibonacci_unfold)
    moreover from Inl r1 have "requests_send E (sent w) ?post = Raises e"
      by (auto split: outcome.splits)
    ultimately show ?thesis using sent1 by (intro exI [of _ "[?post]"]) simp
  next
    case (Inr u)
    with r1 obtain s where o1: "requests_send E (sent w) ?post = Response s"
      by (auto split: outcome.splits)
    obtain rb w4 where body:
      "(if n \<le> 1 then (Inr n, w1) else children E n depth ?rid w1) = (rb, w4)"
      using prod.exhaust by blast
    have "\<exists>nb. sent w4 = sent w1 @ nb \<and>
            rb = (if ?R (sent w1) nb = [] then Inr (fib_value n) else Inl (last (?R (sent w1) nb)))"
    proof (cases "n \<le> 1")
      case True
      with body show ?thesis by (intro exI [of _ "[]"]) (simp add: fib_value_def)
    next
      case False
      then have lt: "nat (n - 1) < nat n" "nat (n - 2) < nat n" by arith+
      obtain r2 w2 where f1: "fibonacci E (n - 1) (depth + 1) (Some ?rid) w1 = (r2, w2)"
        using prod.exhaust by blast
      from less.hyps [OF lt(1) f1] obtain n2 where n2: "sent w2 = sent w1 @ n2"
        "r2 = (if ?R (sent w1) n2 = [] then Inr (fib_value (n - 1)) else Inl (last (?R (sent w1) n2)))"
        by blast
      show ?thesis
      proof (cases "?R (sent w1) n2 = []")
        case ne: False
        with n2 False body f1 have "rb = r2" "w4 = w2" by (auto simp: children_def)
        with n2 ne show ?thesis by (intro exI [of _ n2]) simp
      next
        case e2: True
        obtain r3 w3 where f2: "fibonacci E (n - 2) (depth + 1) (Some ?rid) w2 = (r3, w3)"
          using prod.exhaust by blast
        from less.hyps [OF lt(2) f2] obtain n3 where n3: "sent w3 = sent w2 @ n3"
          "r3 = (if ?R (sent w2) n3 = [] then Inr (fib_value (n - 2)) else Inl (last (?R (sent w2) n3)))"
          by blast
        have R: "?R (sent w1) (n2 @ n3) = ?R (sent w2) n3"
          using e2 n2(1) by (simp add: raised_outcomes_append)
        from e2 n2(2) have r2: "r2 = Inr (fib_value (n - 1))" by simp
        from False body f1 f2 r2 have b:
          "(rb, w4) = (case r3 of Inl e \<Rightarrow> (Inl e, w3)
                       | Inr b \<Rightarrow> (Inr (fib_value (n - 1) + b), w3))"
          by (simp add: children_def)
        then have "w4 = w3" by (cases r3) simp_all
        moreover from b n3(2) have
          "rb = (if ?R (sent w2) n3 = [] then Inr (fib_value (n - 1) + fib_value (n - 2))
                 else Inl (last (?R (sent w2) n3)))"
          by (cases "?R (sent w2) n3 = []") simp_all
        ultimately have "w4 = w3"
          "rb = (if ?R (sent w2) n3 = [] then Inr (fib_value (n - 1) + fib_value (n - 2))
                 else Inl (last (?R (sent w2) n3)))"
          by blast+
        with n2(1) n3(1) R fib_value_step [OF False] show ?thesis
          by (intro exI [of _ "n2 @ n3"]) simp
      qed
    qed
    then obtain nb where nb: "sent w4 = sent w1 @ nb"
      "rb = (if ?R (sent w1) nb = [] then Inr (fib_value n) else Inl (last (?R (sent w1) nb)))"
      by blast
    from Inr post less.prems body have "finish E ?rid (rb, w4) = (r, w')"
      by (simp add: fibonacci_unfold)
    from finish_trace [OF this] obtain nf where nf: "sent w' = sent w4 @ nf"
      "r = (case rb of
              Inr v \<Rightarrow> if ?R (sent w4) nf = [] then Inr v else Inl (last (?R (sent w4) nf))
            | Inl e \<Rightarrow> Inl (last (e # ?R (sent w4) nf)))"
      by blast
    have all: "?R (sent w) (?post # nb @ nf) = ?R (sent w1) nb @ ?R (sent w4) nf"
      using o1 sent1 nb(1) raised_outcomes_append [of E "sent w1" nb nf] by simp
    have "r = (if ?R (sent w1) nb @ ?R (sent w4) nf = [] then Inr (fib_value n)
               else Inl (last (?R (sent w1) nb @ ?R (sent w4) nf)))"
      using nb(2) nf(2) by (auto simp: last_append)
    moreover have "sent w' = sent w @ (?post # nb @ nf)"
      using sent1 nb(1) nf(1) by simp
    ultimately show ?thesis using all by (intro exI [of _ "?post # nb @ nf"]) simp
  qed
qed


lemma raised_outcomes_responses:
  assumes "\<forall>h r. \<exists>s. requests_send E h r = Response s"
  shows "raised (outcomes E h rs) = []"
proof (induction rs arbitrary: h)
  case Nil
  show ?case by simp
next
  case (Cons r rs)
  from assms obtain s where "requests_send E h r = Response s" by blast
  with Cons show ?case by simp
qed

section \<open>Successive calls\<close>

lemma fibonacci_calls_grows: "grows E w (fibonacci_calls E cs w)"
proof (induction cs arbitrary: w)
  case Nil
  show ?case by (simp add: grows_refl)
next
  case (Cons c cs)
  obtain n depth p where c: "c = (n, depth, p)" using prod_cases3 by blast
  have "grows E w (snd (fibonacci E n depth p w))"
    by (rule fibonacci_grows [of E n depth p w "fst (fibonacci E n depth p w)"]) simp
  with Cons [of "snd (fibonacci E n depth p w)"] c show ?case
    using grows_trans by auto
qed

lemma distinct_run_ids:
  "distinct (map (\<lambda>i. Some (JStr (f i))) xs) \<longleftrightarrow> distinct (map f xs)"
  by (auto simp: distinct_map inj_on_def)

section \<open>Run lifecycle\<close>

text \<open>
  Claim C1 says that a run goes from Open to Completed or Failed exactly once and that every
  later end call on it is a no-op that issues no transport request. \<^verbatim>\<open>RunLogger\<close> has
  no run state at all. Here run R1 is created, ended with outputs, and ended again with an
  error: the second end returns normally, changes the world, and a second PATCH for R1, now
  carrying the error, is handed to the transport.
\<close>

theorem patch_run_stateless_counterexample:
  "(let w1 = snd (post_run env_ok [] ''root'' ''R1'' None world0);
        w2 = snd (patch_run env_ok ''R1'' (Some [(''y'', JInt 2)]) None w1);
        w3 = snd (patch_run env_ok ''R1'' None (Some ''late failure'') w2)
    in fst (patch_run env_ok ''R1'' None (Some ''late failure'') w2) = Inr ()
       \<and> w3 \<noteq> w2
       \<and> map url (updates (sent w3)) =
           [''https://api.smith.langchain.com/runs/R1'', ''https://api.smith.langchain.com/runs/R1'']
       \<and> map (field ''outputs'') (updates (sent w3)) = [Some (JObj [(''y'', JInt 2)]), Some JNull]
       \<and> map (field ''error'') (updates (sent w3)) = [Some JNull, Some (JStr ''late failure'')])"
  by (simp add: Let_def post_run_snd patch_run_snd patch_run_fst post_request_def patch_request_def
      updates_def field_def env_ok_def env_with_def world0_def LANGCHAIN_ENDPOINT_def)

text \<open>
  Claim C1, as the code has it: \<^verbatim>\<open>patch_run\<close> is stateless. From any world, whatever
  calls came before, it takes one clock reading and hands exactly one more PATCH request for
  the run id to the transport; nothing else changes, and the number of update requests on
  record goes up by one.
\<close>

theorem patch_run_stateless:
  "snd (patch_run E run_id output error w) =
     w\<lparr>clock_reads := clock_reads w + 1,
       sent := sent w @ [patch_request E run_id output error (utcnow E (clock_reads w))]\<rparr>
   \<and> length (updates (sent (snd (patch_run E run_id output error w)))) =
       Suc (length (updates (sent w)))"
  by (simp add: patch_run_snd updates_def patch_request_def)

text \<open>
  Claim C2 says that end with both outputs and error, or with neither, raises a usage error
  and issues no update request. \<^verbatim>\<open>patch_run\<close> checks nothing: with neither argument it
  returns normally after sending both keys as null, and with both it returns normally after
  sending both values.
\<close>

theorem patch_run_usage_counterexample:
  "fst (patch_run env_ok ''R1'' None None world0) = Inr ()
   \<and> map json_body (new_requests world0 (snd (patch_run env_ok ''R1'' None None world0))) =
       [[(''error'', JNull), (''outputs'', JNull), (''end_time'', JStr ''t'')]]
   \<and> fst (patch_run env_ok ''R1'' (Some [(''a'', JInt 1)]) (Some ''boom'') world0) = Inr ()
   \<and> map json_body
       (new_requests world0 (snd (patch_run env_ok ''R1'' (Some [(''a'', JInt 1)]) (Some ''boom'') world0))) =
       [[(''error'', JStr ''boom''), (''outputs'', JObj [(''a'', JInt 1)]), (''end_time'', JStr ''t'')]]"
  by (simp add: patch_run_snd patch_run_fst patch_request_def new_requests_def
      env_ok_def env_with_def world0_def)

text \<open>
  Claim C2, as the code has it: for every combination of \<^verbatim>\<open>output\<close> and \<^verbatim>\<open>error\<close>,
  \<^verbatim>\<open>patch_run\<close> hands one PATCH request to the transport whose payload holds the two
  arguments as given (null for \<^verbatim>\<open>None\<close>), and it raises exactly the exception the
  transport raises, if any.
\<close>

theorem patch_run_no_usage_check:
  "fst (patch_run E run_id output error w) =
     (case requests_send E (sent w)
             (patch_request E run_id output error (utcnow E (clock_reads w))) of
        Response s \<Rightarrow> Inr () | Raises e \<Rightarrow> Inl e)
   \<and> new_requests w (snd (patch_run E run_id output error w)) =
       [patch_request E run_id output error (utcnow E (clock_reads w))]
   \<and> json_body (patch_request E run_id output error now) =
       [(''error'', optional JStr error), (''outputs'', optional JObj output),
        (''end_time'', JStr now)]"
  by (simp add: patch_run_snd patch_run_fst patch_request_def new_requests_def)

section \<open>Parent linkage\<close>

text \<open>
  Claim C4: the create request that \<^verbatim>\<open>post_run\<close> emits carries under
  \<^verbatim>\<open>parent_run_id\<close> exactly the parent it was given, and null when it was given none.
  This holds from every world, so whatever other requests were recorded before; the call
  emits that one request and no other. In a call of \<^verbatim>\<open>fibonacci\<close>, which threads its
  own run id into its recursive calls, every run created names as its parent the parent
  the call was given or a run created earlier in the same call.
\<close>

theorem post_run_parent_run_id:
  "field ''parent_run_id'' (last (sent (snd (post_run E data name run_id (Some P) w)))) =
     Some (JStr P)
   \<and> field ''parent_run_id'' (last (sent (snd (post_run E data name run_id None w)))) =
     Some JNull
   \<and> new_requests w (snd (post_run E data name run_id parent_run_id w)) =
     [post_request E data name run_id parent_run_id (utcnow E (clock_reads w))]
   \<and> field ''parent_run_id''
       (post_request E data name run_id parent_run_id (utcnow E (clock_reads w))) =
     Some (optional JStr parent_run_id)
   \<and> well_linked {Some (optional JStr parent_run_id)}
       (new_requests w (snd (fibonacci E n depth parent_run_id w)))"
  using fibonacci_links [of E n depth parent_run_id w "fst (fibonacci E n depth parent_run_id w)"
      "snd (fibonacci E n depth parent_run_id w)"]
  by (simp add: post_run_snd post_request_def field_def new_requests_def links_def)

theorem post_run_parent_run_id_witness:
  "map (field ''parent_run_id'') (creates (sent (snd (fibonacci env_ok 2 0 None world0)))) =
     [Some JNull, Some (JStr ''u''), Some (JStr ''u'')]
   \<and> well_linked {Some JNull} (new_requests world0 (snd (fibonacci env_ok 2 0 None world0)))"
  using post_run_parent_run_id [of env_ok "[]" "''root''" "''R1''" "''R0''" world0 None 2 0]
  by (simp add: fibonacci_ok_2 creates_def field_def post_request_def patch_request_def)

section \<open>Events\<close>

text \<open>
  Claim C5 says that end flushes the buffered events inside the update request. The
  update request of \<^verbatim>\<open>patch_run\<close> has no \<^verbatim>\<open>events\<close> key: with one event appended to
  the notebook's \<^verbatim>\<open>events\<close> list, its payload is error, outputs and end time only.
\<close>

theorem patch_run_events_counterexample:
  "(let w1 = events_append (JObj [(''event_name'', JStr ''retry''), (''reason'', JStr ''x'')])
               (world0\<lparr>events := []\<rparr>);
        w2 = snd (patch_run env_ok ''R'' (Some []) None w1)
    in length (events w1) = 1
       \<and> field ''events'' (last (sent w2)) = None
       \<and> json_body (last (sent w2)) =
           [(''error'', JNull), (''outputs'', JObj []), (''end_time'', JStr ''t'')])"
  by (simp add: Let_def events_append_def patch_run_snd patch_request_def field_def
      env_ok_def env_with_def world0_def)

text \<open>
  Claim C5, as the code has it: the events appended to the list \<^verbatim>\<open>events\<close> are kept in
  the order appended, and the notebook's top-level update request (the cell after the
  appends) carries exactly that list, in that order, under \<^verbatim>\<open>events\<close>, in one request
  together with outputs and end time; one append gives one event. \<^verbatim>\<open>patch_run\<close> never
  sends events.
\<close>

theorem events_sent_by_notebook_update:
  "field ''events''
     (last (sent (snd (update_my_first_run E (fold events_append evs (w\<lparr>events := []\<rparr>)))))) =
     Some (JArr evs)
   \<and> field ''events'' (last (sent (snd (update_my_first_run E (events_append ev (w\<lparr>events := []\<rparr>)))))) =
     Some (JArr [ev])
   \<and> events (add_events w) =
       [JObj [(''event_name'', JStr ''retry''), (''reason'', JStr ''never gonna give you up'')],
        JObj [(''event_name'', JStr ''new_token''), (''value'', JStr ''foo'')]]
   \<and> keys (last (sent (snd (update_my_first_run E w)))) = [''outputs'', ''end_time'', ''events'']
   \<and> length (new_requests w (snd (update_my_first_run E w))) = 1
   \<and> url (last (sent (snd (update_my_first_run E (add_events (snd (create_my_first_run E w))))))) =
       LANGCHAIN_ENDPOINT @ ''/runs/'' @ uuid4 E (uuids_drawn w)
   \<and> field ''events''
       (last (sent (snd (update_my_first_run E (add_events (snd (create_my_first_run E w))))))) =
       Some (JArr
         [JObj [(''event_name'', JStr ''retry''), (''reason'', JStr ''never gonna give you up'')],
          JObj [(''event_name'', JStr ''new_token''), (''value'', JStr ''foo'')]])
   \<and> field ''events'' (last (sent (snd (patch_run E run_id output error w)))) = None"
  by (simp add: fold_events_append update_my_first_run_snd create_my_first_run_snd
      events_append_def add_events_def patch_run_snd patch_request_def field_def keys_def
      new_requests_def)

section \<open>Ending a run twice\<close>

text \<open>
  Claim C6 says that ending a run twice with the same outputs gives exactly one update
  call. With \<^verbatim>\<open>patch_run\<close> it gives two: the second call adds a request of its own.
\<close>

theorem patch_run_twice_counterexample:
  "(let w1 = snd (post_run env_ok [] ''root'' ''R'' None world0);
        w2 = snd (patch_run env_ok ''R'' (Some [(''a'', JInt 1)]) None w1);
        w3 = snd (patch_run env_ok ''R'' (Some [(''a'', JInt 1)]) None w2)
    in length (updates (new_requests w1 w3)) = 2
       \<and> new_requests w2 w3 \<noteq> [])"
  by (simp add: Let_def post_run_snd patch_run_snd post_request_def patch_request_def
      updates_def new_requests_def env_ok_def env_with_def world0_def)

text \<open>
  Claim C6, as the code has it: two calls of \<^verbatim>\<open>patch_run\<close> on run R with the same
  outputs hand exactly two PATCH requests to the transport, with the same address, outputs
  and error, each with the end time read at its own call.
\<close>

theorem patch_run_twice:
  "new_requests w
     (snd (patch_run E R (Some outputs) None (snd (patch_run E R (Some outputs) None w)))) =
     [patch_request E R (Some outputs) None (utcnow E (clock_reads w)),
      patch_request E R (Some outputs) None (utcnow E (clock_reads w + 1))]
   \<and> length (updates (new_requests w
       (snd (patch_run E R (Some outputs) None (snd (patch_run E R (Some outputs) None w)))))) = 2"
  by (simp add: patch_run_snd new_requests_def updates_def patch_request_def)

section \<open>The wire format\<close>

text \<open>
  Claim C7 says that a create request has exactly the fields id, name, run_type, inputs,
  start_time and, when there is a parent, parent_run_id, and that an update request leaves
  out what does not apply. The create request of \<^verbatim>\<open>post_run\<close> has a seventh key,
  \<^verbatim>\<open>session_name\<close>, and holds \<^verbatim>\<open>parent_run_id\<close> as null for a root run; the update
  request of a successful run still holds \<^verbatim>\<open>error\<close>, as null.
\<close>

theorem request_fields_counterexample:
  "\<not> set (keys (last (sent (snd (post_run env_ok [] ''root'' ''R1'' None world0))))) \<subseteq>
       {''id'', ''name'', ''run_type'', ''parent_run_id'', ''inputs'', ''start_time''}
   \<and> ''session_name'' \<in> set (keys (last (sent (snd (post_run env_ok [] ''root'' ''R1'' None world0)))))
   \<and> field ''parent_run_id'' (last (sent (snd (post_run env_ok [] ''root'' ''R1'' None world0)))) =
       Some JNull
   \<and> field ''error'' (last (sent (snd (patch_run env_ok ''R1'' (Some []) None world0)))) =
       Some JNull"
  by (simp add: post_run_snd patch_run_snd post_request_def patch_request_def keys_def field_def)

text \<open>
  Claim C7, as the code has it: every create request of \<^verbatim>\<open>post_run\<close> is a POST to
  \<^verbatim>\<open>/runs\<close> with exactly the keys id, name, run_type, parent_run_id, inputs, start_time,
  session_name; every update request of \<^verbatim>\<open>patch_run\<close> is a PATCH to
  \<^verbatim>\<open>/runs/{run_id}\<close> with exactly the keys error, outputs, end_time. No key is ever left
  out.
\<close>

theorem request_fields:
  "keys (last (sent (snd (post_run E data name run_id parent_run_id w)))) =
     [''id'', ''name'', ''run_type'', ''parent_run_id'', ''inputs'', ''start_time'', ''session_name'']
   \<and> keys (last (sent (snd (patch_run E run_id output error w)))) =
     [''error'', ''outputs'', ''end_time'']
   \<and> url (last (sent (snd (patch_run E run_id output error w)))) =
     LANGCHAIN_ENDPOINT @ ''/runs/'' @ run_id
   \<and> verb (last (sent (snd (patch_run E run_id output error w)))) = PATCH
   \<and> verb (last (sent (snd (post_run E data name run_id parent_run_id w)))) = POST
   \<and> url (last (sent (snd (post_run E data name run_id parent_run_id w)))) =
     LANGCHAIN_ENDPOINT @ ''/runs''"
  by (simp add: post_run_snd patch_run_snd post_request_def patch_request_def keys_def)

text \<open>
  Claim C10: every create request of \<^verbatim>\<open>post_run\<close> has run_type \<^verbatim>\<open>chain\<close>, whatever
  the arguments.
\<close>

theorem post_run_run_type_chain:
  "field ''run_type'' (last (sent (snd (post_run E data name run_id parent_run_id w)))) =
     Some (JStr ''chain'')"
  by (simp add: post_run_snd post_request_def field_def)

section \<open>Transport failures\<close>

text \<open>
  Claim C3 says that a transport failure while creating a run does not raise out of the
  call. \<^verbatim>\<open>post_run\<close> does not catch anything, and \<^verbatim>\<open>fibonacci\<close> calls it before its
  \<^verbatim>\<open>try\<close> block: with a transport that fails every create request, both raise the
  transport's exception.
\<close>

theorem create_failure_counterexample:
  "fst (post_run env_no_create [] ''root'' ''R1'' None world0) = Inl (Exception ''ConnectionError'')
   \<and> fst (fibonacci env_no_create 5 0 None world0) = Inl (Exception ''ConnectionError'')"
  by (simp add: fibonacci_unfold post_run_def submit_def post_request_def
      env_no_create_def env_with_def world0_def)

text \<open>
  Claim C3, as the code has it: when the transport raises on the create request, the
  exception leaves \<^verbatim>\<open>post_run\<close>, and it leaves \<^verbatim>\<open>fibonacci\<close> with no further
  request made for that run; a response, whatever its status, never raises, neither from
  \<^verbatim>\<open>post_run\<close> nor from a later \<^verbatim>\<open>patch_run\<close>, which returns normally whenever its
  own transport call answers.
\<close>

theorem create_failure_propagates:
  "(requests_send E (sent w) (post_request E data name run_id p (utcnow E (clock_reads w))) = Raises e
      \<longrightarrow> post_run E data name run_id p w =
            (Inl e, w\<lparr>clock_reads := clock_reads w + 1,
                      sent := sent w @ [post_request E data name run_id p (utcnow E (clock_reads w))]\<rparr>))
   \<and> (requests_send E (sent w)
         (post_request E [(''n'', JInt n)] ''fibonacci_recursive'' (uuid4 E (uuids_drawn w)) q
            (utcnow E (clock_reads w))) = Raises e
      \<longrightarrow> fibonacci E n depth q w =
            (Inl e, w\<lparr>uuids_drawn := uuids_drawn w + 1, clock_reads := clock_reads w + 1,
                      sent := sent w @
                        [post_request E [(''n'', JInt n)] ''fibonacci_recursive''
                           (uuid4 E (uuids_drawn w)) q (utcnow E (clock_reads w))]\<rparr>))
   \<and> (requests_send E (sent w) (post_request E data name run_id p (utcnow E (clock_reads w))) =
         Response s
      \<longrightarrow> fst (post_run E data name run_id p w) = Inr ())
   \<and> (requests_send E (sent w) (patch_request E run_id output error (utcnow E (clock_reads w))) =
         Response s
      \<longrightarrow> fst (patch_run E run_id output error w) = Inr ())"
  by (simp add: fibonacci_unfold post_run_def patch_run_def submit_def)

theorem create_failure_propagates_witness:
  "requests_send env_no_create (sent world0)
      (post_request env_no_create [(''n'', JInt 5)] ''fibonacci_recursive''
         (uuid4 env_no_create (uuids_drawn world0)) None (utcnow env_no_create (clock_reads world0))) =
      Raises (Exception ''ConnectionError'')
   \<and> fst (post_run env_no_create [(''n'', JInt 5)] ''fibonacci_recursive''
            (uuid4 env_no_create (uuids_drawn world0)) None world0) =
       Inl (Exception ''ConnectionError'')
   \<and> map verb (sent (snd (fibonacci env_no_create 5 0 None world0))) = [POST]
   \<and> fst (fibonacci env_no_create 5 0 None world0) = Inl (Exception ''ConnectionError'')
   \<and> requests_send env_500 (sent world0)
       (post_request env_500 [] ''root'' ''R1'' None (utcnow env_500 (clock_reads world0))) =
       Response 500
   \<and> fst (post_run env_500 [] ''root'' ''R1'' None world0) = Inr ()
   \<and> requests_send env_no_create (sent world0)
       (patch_request env_no_create ''u'' (Some []) None (utcnow env_no_create (clock_reads world0))) =
       Response 200
   \<and> fst (patch_run env_no_create ''u'' (Some []) None world0) = Inr ()"
  using create_failure_propagates [of env_no_create world0 "[(''n'', JInt 5)]" "''fibonacci_recursive''"
      "uuid4 env_no_create (uuids_drawn world0)" None "Exception ''ConnectionError''" 5 None 0
      200 "Some []" None]
    create_failure_propagates [of env_500 world0 "[]" "''root''" "''R1''" None _ _ _ _ 500]
  by (simp add: env_no_create_def env_500_def env_with_def world0_def post_request_def
      patch_request_def)

section \<open>Run identifiers\<close>

text \<open>
  Claim C8 says that every call that begins a run generates a fresh id and that the ids of
  two distinct such calls are always distinct. \<^verbatim>\<open>post_run\<close> generates nothing: it
  sends the id its caller passes, so two calls with the same id create two runs with one
  id. \<^verbatim>\<open>fibonacci\<close> takes its ids from \<^verbatim>\<open>uuid.uuid4\<close> and checks nothing: when
  that source returns a value twice, two runs carry the same id.
\<close>

theorem run_ids_counterexample:
  "created_ids (sent (snd (post_run env_ok [] ''second'' ''R1'' None
       (snd (post_run env_ok [] ''first'' ''R1'' None world0))))) =
     [Some (JStr ''R1''), Some (JStr ''R1'')]
   \<and> created_ids (sent (snd (fibonacci env_collide 1 0 None
       (snd (fibonacci env_collide 1 0 None world0))))) =
     [Some (JStr ''u''), Some (JStr ''u'')]
   \<and> \<not> distinct (created_ids (sent (snd (fibonacci env_collide 1 0 None
       (snd (fibonacci env_collide 1 0 None world0))))))"
  by (simp add: fibonacci.simps [of _ 1] Let_def except_handler_def post_run_def patch_run_def
      submit_def post_request_def patch_request_def created_ids_def creates_def field_def
      env_collide_def env_ok_def env_with_def world0_def)

text \<open>
  Claim C8, as the code has it: \<^verbatim>\<open>post_run\<close> and \<^verbatim>\<open>patch_run\<close> draw no UUID;
  \<^verbatim>\<open>post_run\<close> sends the id it is given, with the start time read from the clock at
  the call. Every call of \<^verbatim>\<open>fibonacci\<close> draws a UUID of its own and first sends the
  create request with that id and the clock reading of the call. Over any sequence of
  calls, the runs created carry, in order, exactly the UUIDs drawn, one each; so their ids
  are pairwise distinct exactly when the values that \<^verbatim>\<open>uuid.uuid4\<close> returned are.
\<close>

theorem fibonacci_fresh_run_ids:
  "field ''id'' (last (sent (snd (post_run E data name run_id p w)))) = Some (JStr run_id)
   \<and> field ''start_time'' (last (sent (snd (post_run E data name run_id p w)))) =
       Some (JStr (utcnow E (clock_reads w)))
   \<and> uuids_drawn (snd (post_run E data name run_id p w)) = uuids_drawn w
   \<and> uuids_drawn (snd (patch_run E run_id output error w)) = uuids_drawn w
   \<and> verb (hd (new_requests w (snd (fibonacci E n depth p w)))) = POST
   \<and> field ''id'' (hd (new_requests w (snd (fibonacci E n depth p w)))) =
       Some (JStr (uuid4 E (uuids_drawn w)))
   \<and> field ''start_time'' (hd (new_requests w (snd (fibonacci E n depth p w)))) =
       Some (JStr (utcnow E (clock_reads w)))
   \<and> uuids_drawn w < uuids_drawn (snd (fibonacci E n depth p w))
   \<and> created_ids (new_requests w (fibonacci_calls E cs w)) =
       map (\<lambda>i. Some (JStr (uuid4 E i))) [uuids_drawn w ..< uuids_drawn (fibonacci_calls E cs w)]
   \<and> distinct (created_ids (new_requests w (fibonacci_calls E cs w))) =
       distinct (map (uuid4 E) [uuids_drawn w ..< uuids_drawn (fibonacci_calls E cs w)])"
proof -
  have ids: "created_ids (new_requests w (fibonacci_calls E cs w)) =
      map (\<lambda>i. Some (JStr (uuid4 E i))) [uuids_drawn w ..< uuids_drawn (fibonacci_calls E cs w)]"
    using fibonacci_calls_grows [of E w cs] by (simp add: grows_def)
  obtain rest where "new_requests w (snd (fibonacci E n depth p w)) =
     post_request E [(''n'', JInt n)] ''fibonacci_recursive'' (uuid4 E (uuids_drawn w)) p
       (utcnow E (clock_reads w)) # rest"
    using fibonacci_first_request by blast
  then show ?thesis
    using ids fibonacci_draws [of w E n depth p]
    by (simp add: post_request_def field_def post_run_snd patch_run_snd distinct_run_ids)
qed

theorem fibonacci_fresh_run_ids_witness:
  "created_ids (new_requests world0 (fibonacci_calls env_ok [(2, 0, None)] world0)) =
       [Some (JStr ''u''), Some (JStr ''uu''), Some (JStr ''uuu'')]
   \<and> distinct (created_ids (new_requests world0 (fibonacci_calls env_ok [(2, 0, None)] world0)))"
proof -
  have upt: "[0 ..< 3] = [0, Suc 0, Suc (Suc 0)]"
    by (simp add: upt_rec numeral_3_eq_3)
  have u: "map (uuid4 env_ok) [0 ..< 3] = [''u'', ''uu'', ''uuu'']"
    by (simp add: upt env_ok_def env_with_def)
  have n: "uuids_drawn (fibonacci_calls env_ok [(2, 0, None)] world0) = 3" "uuids_drawn world0 = 0"
    by (simp_all add: fibonacci_ok_2) (simp add: world0_def)
  have "map (\<lambda>i. Some (JStr (uuid4 env_ok i))) [0 ..< 3] =
      map (\<lambda>s. Some (JStr s)) (map (uuid4 env_ok) [0 ..< 3])"
    by simp
  also have "\<dots> = [Some (JStr ''u''), Some (JStr ''uu''), Some (JStr ''uuu'')]"
    by (simp only: u) simp
  finally have m: "map (\<lambda>i. Some (JStr (uuid4 env_ok i))) [0 ..< 3] =
      [Some (JStr ''u''), Some (JStr ''uu''), Some (JStr ''uuu'')]" .
  note r = fibonacci_fresh_run_ids [of env_ok _ _ _ _ world0 _ _ _ _ "[(2, 0, None)]"]
  have "created_ids (new_requests world0 (fibonacci_calls env_ok [(2, 0, None)] world0)) =
       map (\<lambda>i. Some (JStr (uuid4 env_ok i))) [0 ..< 3]"
    using r by (simp only: n)
  with m show ?thesis by simp
qed

section \<open>The value of fibonacci\<close>

text \<open>
  Claim C9 says that \<^verbatim>\<open>fibonacci\<close> returns its value whether or not the logger calls
  succeed. With a transport whose third call raises, \<^verbatim>\<open>fibonacci(2)\<close> raises that
  exception instead of returning 1: the child's update fails, the child's handler reports
  the error and re-raises, and so does the parent's.
\<close>

theorem fibonacci_transport_counterexample:
  "fst (fibonacci env_flaky 2 0 None world0) = Inl (Exception ''ConnectionError'')
   \<and> map verb (sent (snd (fibonacci env_flaky 2 0 None world0))) =
       [POST, POST, PATCH, PATCH, PATCH]
   \<and> map (field ''error'') (updates (sent (snd (fibonacci env_flaky 2 0 None world0)))) =
       [Some JNull, Some (JStr ''ConnectionError''), Some (JStr ''ConnectionError'')]"
  by (simp add: fibonacci.simps [of _ 2] fibonacci.simps [of _ 1] Let_def except_handler_def
      post_run_def patch_run_def submit_def post_request_def patch_request_def
      updates_def field_def env_flaky_def env_with_def world0_def)

text \<open>
  Claim C9, as the code has it: \<^verbatim>\<open>fibonacci(n)\<close> terminates for every integer \<open>n\<close>,
  and it returns a value exactly when none of the transport calls made during the call
  raises: then it returns \<open>n\<close> itself when \<open>n \<le> 1\<close>, negative \<open>n\<close> included, and the
  \<open>n\<close>-th Fibonacci number otherwise, whatever status the responses have. When some
  transport call made during the call raises, \<^verbatim>\<open>fibonacci\<close> raises instead of
  returning, and the exception that leaves it is the last one the transport raised during
  the call.
\<close>

theorem fibonacci_value:
  "fst (fibonacci E n depth p w) =
     (if raised_between E w (snd (fibonacci E n depth p w)) = []
      then Inr (if n \<le> 1 then n else fib_spec (nat n))
      else Inl (last (raised_between E w (snd (fibonacci E n depth p w)))))
   \<and> ((\<forall>h r. \<exists>s. requests_send E h r = Response s) \<longrightarrow>
        fst (fibonacci E n depth p w) = Inr (if n \<le> 1 then n else fib_spec (nat n)))"
proof -
  obtain new where new: "sent (snd (fibonacci E n depth p w)) = sent w @ new"
    "fst (fibonacci E n depth p w) =
       (if raised (outcomes E (sent w) new) = [] then Inr (fib_value n)
        else Inl (last (raised (outcomes E (sent w) new))))"
    using fibonacci_trace [of E n depth p w "fst (fibonacci E n depth p w)"
        "snd (fibonacci E n depth p w)"]
    by auto
  from new(1) have "new_requests w (snd (fibonacci E n depth p w)) = new"
    by (simp add: new_requests_def)
  with new(2) have main: "fst (fibonacci E n depth p w) =
     (if raised_between E w (snd (fibonacci E n depth p w)) = []
      then Inr (if n \<le> 1 then n else fib_spec (nat n))
      else Inl (last (raised_between E w (snd (fibonacci E n depth p w)))))"
    by (simp add: raised_between_def fib_value_def)
  moreover have "raised_between E w (snd (fibonacci E n depth p w)) = []"
    if "\<forall>h r. \<exists>s. requests_send E h r = Response s"
    using that by (simp add: raised_between_def raised_outcomes_responses)
  ultimately show ?thesis by simp
qed

theorem fibonacci_value_witness:
  "(\<forall>h r. \<exists>s. requests_send env_500 h r = Response s)
   \<and> fst (fibonacci env_500 5 0 None world0) = Inr 5
   \<and> fst (fibonacci env_500 (- 3) 0 None world0) = Inr (- 3)
   \<and> raised_between env_no_create world0 (snd (fibonacci env_no_create 5 0 None world0)) =
       [Exception ''ConnectionError'']
   \<and> fst (fibonacci env_no_create 5 0 None world0) = Inl (Exception ''ConnectionError'')"
proof -
  have ok: "\<forall>h r. \<exists>s. requests_send env_500 h r = Response s"
    by (simp add: env_500_def env_with_def)
  have five: "fib_spec (nat 5) = 5" by code_simp
  have a: "fst (fibonacci env_500 5 0 None world0) = Inr 5"
    using fibonacci_value [of env_500 5 0 None world0, THEN conjunct2, THEN mp, OF ok] five
    by simp
  have b: "fst (fibonacci env_500 (- 3) 0 None world0) = Inr (- 3)"
    using fibonacci_value [of env_500 "- 3" 0 None world0, THEN conjunct2, THEN mp, OF ok]
    by simp
  have c: "raised_between env_no_create world0 (snd (fibonacci env_no_create 5 0 None world0)) =
       [Exception ''ConnectionError'']"
    by (simp add: raised_between_def new_requests_def fibonacci_unfold post_run_def submit_def
        post_request_def env_no_create_def env_with_def world0_def)
  have d: "fst (fibonacci env_no_create 5 0 None world0) = Inl (Exception ''ConnectionError'')"
    using fibonacci_value [of env_no_create 5 0 None world0, THEN conjunct1] c by simp
  from ok a b c d show ?thesis by simp
qed

end
